theory Spec2Isabelle
  imports Main
begin

section \<open>Python values used by mysqldump\_to\_csv.py\<close>

text \<open>
  Strings are lists of characters. Every exception the script can raise is a value of
  \<open>error\<close>; a function that can raise returns a sum with the error on the left, and a
  function that may have written rows before it raises returns what it wrote together
  with an optional error.
\<close>

datatype error = AssertionError | IndexError | CsvError | TypeError | UnboundLocalError

text \<open>\<open>s.startswith(p)\<close>\<close>

definition startswith :: "string \<Rightarrow> string \<Rightarrow> bool" where
  "startswith s p = (take (length p) s = p)"

text \<open>\<open>s.find(sep)\<close>: index of the first occurrence, \<open>None\<close> for Python's -1.\<close>

fun str_find :: "string \<Rightarrow> string \<Rightarrow> nat option" where
  "str_find [] sep = (if sep = [] then Some 0 else None)"
| "str_find (c # s) sep =
     (if startswith (c # s) sep then Some 0 else map_option Suc (str_find s sep))"

text \<open>\<open>s.partition(sep)\<close>: split at the first occurrence of \<open>sep\<close>; when \<open>sep\<close> does not
  occur the result is \<open>(s, '', '')\<close>.\<close>

definition partition_str :: "string \<Rightarrow> string \<Rightarrow> string \<times> string \<times> string" where
  "partition_str s sep =
     (case str_find s sep of
        None \<Rightarrow> (s, [], [])
      | Some i \<Rightarrow> (take i s, sep, drop (i + length sep) s))"

text \<open>\<open>str.isspace\<close> on one character, for the characters below 256.\<close>

definition isspace :: "char \<Rightarrow> bool" where
  "isspace c = (c \<in> set [CHR 0x09, CHR 0x0A, CHR 0x0B, CHR 0x0C, CHR 0x0D, CHR 0x1C, CHR 0x1D,
                          CHR 0x1E, CHR 0x1F, CHR 0x20, CHR 0x85, CHR 0xA0])"

text \<open>\<open>s.strip()\<close> and \<open>s.strip(chars)\<close>: drop the characters satisfying \<open>P\<close> at both ends.\<close>

definition strip_with :: "(char \<Rightarrow> bool) \<Rightarrow> string \<Rightarrow> string" where
  "strip_with P s = rev (dropWhile P (rev (dropWhile P s)))"

definition strip :: "string \<Rightarrow> string" where
  "strip s = strip_with isspace s"

text \<open>\<open>s.split(d)\<close> for a one-character separator: every occurrence of \<open>d\<close> separates, so
  two adjacent separators enclose an empty part, and the result is never empty.\<close>

fun split_on :: "char \<Rightarrow> string \<Rightarrow> string list" where
  "split_on d [] = [[]]"
| "split_on d (c # s) =
     (if c = d then [] # split_on d s
      else (case split_on d s of [] \<Rightarrow> [[c]] | p # ps \<Rightarrow> (c # p) # ps))"

section \<open>The csv module\<close>

text \<open>
  The script reads the value list with \<open>csv.reader\<close> and writes rows with \<open>csv.writer\<close>.
  Both belong to the Python standard library; they are modelled after CPython's
  \<open>Modules/_csv.c\<close> (version 3.11 and later, where a NUL character is ordinary data),
  for the dialect the script fixes: delimiter \<open>,\<close>, quote character \<open>'\<close>, escape
  character \<open>\\<close>, \<open>doublequote=False\<close>, \<open>skipinitialspace=False\<close>, \<open>strict=True\<close>,
  quoting \<open>QUOTE_MINIMAL\<close>.
\<close>

datatype parser_state =
  START_RECORD | START_FIELD | ESCAPED_CHAR | IN_FIELD | IN_QUOTED_FIELD
  | ESCAPE_IN_QUOTED_FIELD | EAT_CRNL | AFTER_ESCAPED_CRNL

record reader =
  state :: parser_state
  field :: string
  row_fields :: "string list"

definition delimiter :: char where "delimiter = CHR '',''"
definition quotechar :: char where "quotechar = CHR 0x27"
definition escapechar :: char where "escapechar = CHR 0x5C"

definition parse_reset :: reader where
  "parse_reset = \<lparr>state = START_RECORD, field = [], row_fields = []\<rparr>"

definition parse_save_field :: "reader \<Rightarrow> reader" where
  "parse_save_field r = r\<lparr>row_fields := row_fields r @ [field r], field := []\<rparr>"

definition parse_add_char :: "reader \<Rightarrow> char \<Rightarrow> reader" where
  "parse_add_char r c = r\<lparr>field := field r @ [c]\<rparr>"

definition is_nl :: "char option \<Rightarrow> bool" where
  "is_nl c = (c = Some (CHR 0x0A) \<or> c = Some (CHR 0x0D))"

text \<open>The cases \<open>START_FIELD\<close> and \<open>IN_FIELD\<close> of \<open>parse_process_char\<close>; \<open>None\<close> is the
  end-of-line marker \<open>EOL\<close> that the reader feeds after the last character of a line.\<close>

definition start_field :: "reader \<Rightarrow> char option \<Rightarrow> reader" where
  "start_field r c =
     (if is_nl c \<or> c = None then
        (parse_save_field r)\<lparr>state := (if c = None then START_RECORD else EAT_CRNL)\<rparr>
      else if c = Some quotechar then r\<lparr>state := IN_QUOTED_FIELD\<rparr>
      else if c = Some escapechar then r\<lparr>state := ESCAPED_CHAR\<rparr>
      else if c = Some delimiter then parse_save_field r
      else (parse_add_char r (the c))\<lparr>state := IN_FIELD\<rparr>)"

definition in_field :: "reader \<Rightarrow> char option \<Rightarrow> reader" where
  "in_field r c =
     (if is_nl c \<or> c = None then
        (parse_save_field r)\<lparr>state := (if c = None then START_RECORD else EAT_CRNL)\<rparr>
      else if c = Some escapechar then r\<lparr>state := ESCAPED_CHAR\<rparr>
      else if c = Some delimiter then (parse_save_field r)\<lparr>state := START_FIELD\<rparr>
      else parse_add_char r (the c))"

fun parse_process_char :: "reader \<Rightarrow> char option \<Rightarrow> error + reader" where
  "parse_process_char r c =
     (case state r of
        START_RECORD \<Rightarrow>
          (if c = None then Inr r
           else if is_nl c then Inr (r\<lparr>state := EAT_CRNL\<rparr>)
           else Inr (start_field (r\<lparr>state := START_FIELD\<rparr>) c))
      | START_FIELD \<Rightarrow> Inr (start_field r c)
      | ESCAPED_CHAR \<Rightarrow>
          (if is_nl c then Inr ((parse_add_char r (the c))\<lparr>state := AFTER_ESCAPED_CRNL\<rparr>)
           else Inr ((parse_add_char r (case c of None \<Rightarrow> CHR 0x0A | Some x \<Rightarrow> x))
                        \<lparr>state := IN_FIELD\<rparr>))
      | AFTER_ESCAPED_CRNL \<Rightarrow> (if c = None then Inr r else Inr (in_field r c))
      | IN_FIELD \<Rightarrow> Inr (in_field r c)
      | IN_QUOTED_FIELD \<Rightarrow>
          (if c = None then Inr r
           else if c = Some escapechar then Inr (r\<lparr>state := ESCAPE_IN_QUOTED_FIELD\<rparr>)
           else if c = Some quotechar then Inr (r\<lparr>state := IN_FIELD\<rparr>)
           else Inr (parse_add_char r (the c)))
      | ESCAPE_IN_QUOTED_FIELD \<Rightarrow>
          Inr ((parse_add_char r (case c of None \<Rightarrow> CHR 0x0A | Some x \<Rightarrow> x))
                 \<lparr>state := IN_QUOTED_FIELD\<rparr>)
      | EAT_CRNL \<Rightarrow>
          (if is_nl c then Inr r
           else if c = None then Inr (r\<lparr>state := START_RECORD\<rparr>)
           else Inl CsvError))"

text \<open>The characters of one line, then \<open>EOL\<close>.\<close>

fun parse_chars :: "reader \<Rightarrow> string \<Rightarrow> error + reader" where
  "parse_chars r [] = parse_process_char r None"
| "parse_chars r (c # cs) =
     (case parse_process_char r (Some c) of
        Inl e \<Rightarrow> Inl e
      | Inr r' \<Rightarrow> parse_chars r' cs)"

text \<open>
  Iterating the reader over the lines it was given (\<open>Reader_iternext\<close>, called until it
  stops): the rows it yields in order, and the error that ended the iteration if one did.
  A record continues on the next line while the state is not \<open>START_RECORD\<close>; when the lines
  run out inside a record, strict mode raises if a field is pending or a quote is open.
\<close>

fun reader_rows :: "reader \<Rightarrow> string list \<Rightarrow> string list list \<times> error option" where
  "reader_rows r [] =
     (if field r \<noteq> [] \<or> state r = IN_QUOTED_FIELD then ([], Some CsvError) else ([], None))"
| "reader_rows r (l # ls) =
     (case parse_chars r l of
        Inl e \<Rightarrow> ([], Some e)
      | Inr r' \<Rightarrow>
          if state r' = START_RECORD
          then (case reader_rows parse_reset ls of (rows, e) \<Rightarrow> (row_fields r' # rows, e))
          else reader_rows r' ls)"

definition csv_reader :: "string list \<Rightarrow> string list list \<times> error option" where
  "csv_reader lines = reader_rows parse_reset lines"

text \<open>\<open>csv.writer(outfile, quoting=csv.QUOTE_MINIMAL).writerow(row)\<close>: the text of one
  record in the default dialect (delimiter \<open>,\<close>, quote character \<open>"\<close> doubled inside a
  quoted field, line terminator CR LF).\<close>

definition needs_quotes :: "string \<Rightarrow> bool" where
  "needs_quotes s = list_ex (\<lambda>c. c \<in> set [CHR '','', CHR 0x22, CHR 0x0D, CHR 0x0A]) s"

definition writer_field :: "string \<Rightarrow> string" where
  "writer_field s =
     (if needs_quotes s
      then [CHR 0x22] @ concat (map (\<lambda>c. if c = CHR 0x22 then [c, c] else [c]) s) @ [CHR 0x22]
      else s)"

fun join_fields :: "string list \<Rightarrow> string" where
  "join_fields [] = []"
| "join_fields [f] = f"
| "join_fields (f # g # fs) = f @ '','' @ join_fields (g # fs)"

definition writerow :: "string list \<Rightarrow> string" where
  "writerow row =
     (if row = [[]] then [CHR 0x22, CHR 0x22] else join_fields (map writer_field row))
     @ [CHR 0x0D, CHR 0x0A]"

section \<open>The statement parser\<close>

text \<open>\<open>is_insert\<close> and \<open>get_insert_values\<close>.\<close>

definition is_insert :: "string \<Rightarrow> bool" where
  "is_insert line = (startswith line ''INSERT INTO'' \<or> False)"

definition get_insert_values :: "string \<Rightarrow> string" where
  "get_insert_values line = snd (snd (partition_str line ''` VALUES ''))"

text \<open>\<open>values_sanity_check\<close>: the two assertions, then \<open>True\<close>.\<close>

definition values_sanity_check :: "string \<Rightarrow> error + bool" where
  "values_sanity_check values =
     (if values = [] then Inl AssertionError
      else if hd values \<noteq> CHR ''('' then Inl AssertionError
      else Inr True)"

text \<open>
  \<open>parse_values\<close>. The state of its loops is the row in progress \<open>latest_row\<close> and the rows
  handed to \<open>writer.writerow\<close> so far, in order.
\<close>

type_synonym acc = "string list \<times> string list list"

text \<open>The body of \<open>for column in reader_row\<close>. \<open>latest_row[-1][-1]\<close> raises IndexError when
  the last field of the row is the empty string.\<close>

definition process_column :: "acc \<Rightarrow> string \<Rightarrow> error + acc" where
  "process_column a column =
     (case a of (latest_row, written) \<Rightarrow>
        if length column = 0 \<or> column = ''NULL''
        then Inr (latest_row @ [[CHR 0x00]], written)
        else if hd column = CHR ''(''
        then
          (if length latest_row > 0 \<and> last latest_row = [] then Inl IndexError
           else
             let new_row = (length latest_row > 0 \<and> last (last latest_row) = CHR '')'');
                 latest_row1 = (if new_row
                                then butlast latest_row @ [butlast (last latest_row)]
                                else latest_row);
                 written2 = (if new_row then written @ [latest_row1] else written);
                 latest_row2 = (if new_row then [] else latest_row1);
                 column2 = (if length latest_row2 = 0 then tl column else column)
             in Inr (latest_row2 @ [column2], written2))
        else Inr (latest_row @ [column], written))"

fun parse_columns :: "string list \<Rightarrow> acc \<Rightarrow> acc \<times> error option" where
  "parse_columns [] a = (a, None)"
| "parse_columns (column # cs) a =
     (case process_column a column of
        Inl e \<Rightarrow> (a, Some e)
      | Inr a' \<Rightarrow> parse_columns cs a')"

text \<open>The test after the inner loop: \<open>latest_row[-1]\<close> raises IndexError on an empty row;
  \<open>s[-2:]\<close> is the last two characters (all of \<open>s\<close> when it is shorter), \<open>s[:-2]\<close> the
  rest.\<close>

definition end_of_statement :: "acc \<Rightarrow> error + acc" where
  "end_of_statement a =
     (case a of (latest_row, written) \<Rightarrow>
        if latest_row = [] then Inl IndexError
        else if drop (length (last latest_row) - 2) (last latest_row) = '');''
        then (let latest_row1 =
                    butlast latest_row @ [take (length (last latest_row) - 2) (last latest_row)]
              in Inr (latest_row1, written @ [latest_row1]))
        else Inr (latest_row, written))"

text \<open>\<open>for reader_row in reader\<close>, over the rows the reader yields.\<close>

fun parse_reader_rows :: "string list list \<Rightarrow> acc \<Rightarrow> acc \<times> error option" where
  "parse_reader_rows [] a = (a, None)"
| "parse_reader_rows (reader_row # rs) a =
     (case parse_columns reader_row a of
        (a1, Some e) \<Rightarrow> (a1, Some e)
      | (a1, None) \<Rightarrow>
          (case end_of_statement a1 of
             Inl e \<Rightarrow> (a1, Some e)
           | Inr a2 \<Rightarrow> parse_reader_rows rs a2))"

text \<open>
  \<open>parse_values values outfile\<close>: the rows written to \<open>outfile\<close>, in order, and the error
  raised if any. \<open>csv.writer(None)\<close> raises TypeError before the reader is iterated; an
  error of the reader ends the loop after the rows it had yielded were processed.
\<close>

definition parse_values :: "string \<Rightarrow> 'h option \<Rightarrow> string list list \<times> error option" where
  "parse_values values outfile =
     (case outfile of
        None \<Rightarrow> ([], Some TypeError)
      | Some h \<Rightarrow>
          (case csv_reader [values] of (rows, rerr) \<Rightarrow>
             (case parse_reader_rows rows ([], []) of
                ((latest_row, written), Some e) \<Rightarrow> (written, Some e)
              | ((latest_row, written), None) \<Rightarrow> (written, rerr))))"

section \<open>The schema extractor\<close>

text \<open>The table name of an opener line: \<open>line.partition("`")[2].partition("`")[0]\<close>.\<close>

definition table_name_of :: "string \<Rightarrow> string" where
  "table_name_of line = fst (partition_str (snd (snd (partition_str line ''`''))) ''`'')"

definition is_create :: "string \<Rightarrow> bool" where
  "is_create line = startswith line ''CREATE TABLE''"

definition is_terminator :: "string \<Rightarrow> bool" where
  "is_terminator line =
     (startswith line ''  PRIMARY KEY'' \<or> startswith line ''  KEY''
      \<or> startswith line '') ENGINE'' \<or> startswith line ''  UNIQUE KEY'')"

text \<open>The suffix chosen by the \<open>if\<close>/\<open>elif\<close> chain on \<open>parts[1]\<close>.\<close>

definition key_type :: "string \<Rightarrow> string" where
  "key_type p =
     (if startswith p ''int'' \<or> startswith p ''bigint'' then '':INTEGER''
      else if startswith p ''timestamp'' then '':TIMESTAMP''
      else if startswith p ''datetime'' then '':DATETIME''
      else if startswith p ''date'' then '':DATE''
      else if startswith p ''decimal'' then '':FLOAT64''
      else if startswith p ''bit(1)'' then '':BOOL''
      else '':STRING'')"

text \<open>The body of \<open>if reading_keys\<close>: \<open>parts[1]\<close> raises IndexError when the stripped line
  holds no space.\<close>

definition new_key :: "string \<Rightarrow> error + string" where
  "new_key line =
     (let parts = split_on CHR '' '' (strip line);
          name = strip_with (\<lambda>c. c = CHR 0x60) (hd parts)
      in if length parts < 2 then Inl IndexError
         else Inr (name @ key_type (parts ! 1)))"

text \<open>
  The loop of \<open>get_create_keys\<close> over the lines of the iterator, with its variables
  \<open>reading_keys\<close>, \<open>table_name\<close> (unbound until an opener line is seen) and \<open>keys\<close>. The
  result is the returned pair together with the lines left in the iterator;
  \<open>return table_name, keys\<close> raises UnboundLocalError while \<open>table_name\<close> is unbound.
\<close>

definition return_keys ::
  "string option \<Rightarrow> string list \<Rightarrow> string list \<Rightarrow> error + ((string \<times> string list) \<times> string list)"
where
  "return_keys table_name keys rest =
     (case table_name of
        None \<Rightarrow> Inl UnboundLocalError
      | Some n \<Rightarrow> Inr ((n, keys), rest))"

fun create_keys_loop ::
  "bool \<Rightarrow> string option \<Rightarrow> string list \<Rightarrow> string list
     \<Rightarrow> error + ((string \<times> string list) \<times> string list)"
where
  "create_keys_loop reading_keys table_name keys [] = return_keys table_name keys []"
| "create_keys_loop reading_keys table_name keys (line # rest) =
     (if is_create line
      then create_keys_loop True (Some (table_name_of line)) keys rest
      else if is_terminator line
      then return_keys table_name keys rest
      else if reading_keys
      then (case new_key line of
              Inl e \<Rightarrow> Inl e
            | Inr k \<Rightarrow> create_keys_loop reading_keys table_name (keys @ [k]) rest)
      else create_keys_loop reading_keys table_name keys rest)"

definition get_create_keys ::
  "string list \<Rightarrow> error + ((string \<times> string list) \<times> string list)"
where
  "get_create_keys fileinput = create_keys_loop False None [] fileinput"

section \<open>The driver\<close>

text \<open>
  The files the run touches are observed through the trace of what it does to them: a
  file object is a handle (a number, fresh at every \<open>open\<close>), opened for writing under a
  name, written one csv record at a time, and closed. The driver's state is its variable
  \<open>output\<close> and the trace so far. Opening a file and writing to an open file are taken
  to succeed.
\<close>

datatype event = Open nat string | Close nat | WriteRow nat "string list"

record driver =
  "output" :: "nat option"
  next_handle :: nat
  trace :: "event list"

definition close_output :: "driver \<Rightarrow> driver" where
  "close_output st =
     (case output st of
        None \<Rightarrow> st
      | Some h \<Rightarrow> st\<lparr>trace := trace st @ [Close h]\<rparr>)"

definition open_output :: "string \<Rightarrow> driver \<Rightarrow> driver" where
  "open_output name st =
     st\<lparr>output := Some (next_handle st), next_handle := Suc (next_handle st),
        trace := trace st @ [Open (next_handle st) name]\<rparr>"

text \<open>\<open>write_keys keys output\<close>, where \<open>output\<close> is the file just opened.\<close>

definition write_keys :: "string list \<Rightarrow> driver \<Rightarrow> driver" where
  "write_keys keys st =
     (case output st of
        None \<Rightarrow> st
      | Some h \<Rightarrow> st\<lparr>trace := trace st @ [WriteRow h keys]\<rparr>)"

text \<open>The first \<open>if\<close> of the loop body: the schema extractor reads on from the same
  iterator, so the lines it consumed are gone for the driver.\<close>

definition create_step :: "driver \<Rightarrow> string \<Rightarrow> string list \<Rightarrow> error + (driver \<times> string list)" where
  "create_step st line inp =
     (if is_create line
      then (case get_create_keys (line # inp) of
              Inl e \<Rightarrow> Inl e
            | Inr ((table_name, keys), inp') \<Rightarrow>
                Inr (write_keys keys (open_output (table_name @ ''.csv'') (close_output st)), inp'))
      else Inr (st, inp))"

text \<open>The second \<open>if\<close> of the loop body.\<close>

definition insert_step :: "driver \<Rightarrow> string \<Rightarrow> driver \<times> error option" where
  "insert_step st line =
     (if is_insert line
      then (let values = get_insert_values line in
            case values_sanity_check values of
              Inl e \<Rightarrow> (st, Some e)
            | Inr ok \<Rightarrow>
                if ok
                then (case parse_values values (output st) of
                        (rows, err) \<Rightarrow>
                          (case output st of
                             None \<Rightarrow> (st, err)
                           | Some h \<Rightarrow> (st\<lparr>trace := trace st @ map (WriteRow h) rows\<rparr>, err)))
                else (st, None))
      else (st, None))"

lemma create_keys_loop_length:
  "create_keys_loop rk tn ks ls = Inr (r, rest) \<Longrightarrow> length rest \<le> length ls"
  by (induction rk tn ks ls rule: create_keys_loop.induct)
     (auto simp: return_keys_def split: if_splits option.splits sum.splits)

lemma create_step_length:
  "create_step st line inp = Inr (st', inp') \<Longrightarrow> length inp' \<le> length inp"
  by (auto simp: create_step_def get_create_keys_def
           split: if_splits sum.splits dest: create_keys_loop_length)

text \<open>\<open>for line in inp\<close>: the state when the loop ends, and the error that ended it if one
  did.\<close>

function main_loop :: "driver \<Rightarrow> string list \<Rightarrow> driver \<times> error option" where
  "main_loop st [] = (st, None)"
| "main_loop st (line # inp) =
     (case create_step st line inp of
        Inl e \<Rightarrow> (st, Some e)
      | Inr (st1, inp1) \<Rightarrow>
          (case insert_step st1 line of
             (st2, Some e) \<Rightarrow> (st2, Some e)
           | (st2, None) \<Rightarrow> main_loop st2 inp1))"
  by pat_completeness auto
termination
  by (relation "measure (\<lambda>(st, ls). length ls)")
     (auto dest: create_step_length simp: less_Suc_eq_le)

definition initial :: driver where
  "initial = \<lparr>output = None, next_handle = 0, trace = []\<rparr>"

text \<open>\<open>main\<close> on the lines of the input: the final \<open>close\<close> is reached only when the loop
  ended without an error.\<close>

definition main :: "string list \<Rightarrow> driver \<times> error option" where
  "main lines =
     (case main_loop initial lines of
        (st, None) \<Rightarrow> (close_output st, None)
      | (st, Some e) \<Rightarrow> (st, Some e))"

section \<open>Observing a trace\<close>


text \<open>The name a handle was opened under.\<close>

fun handle_name :: "event list \<Rightarrow> nat \<Rightarrow> string option" where
  "handle_name [] h = None"
| "handle_name (Open h' n # es) h = (if h' = h then Some n else handle_name es h)"
| "handle_name (e # es) h = handle_name es h"

text \<open>The records of the file \<open>f\<close> after a trace: opening for writing empties the file, a
  record written through a handle of \<open>f\<close> is added at the end.\<close>

fun rows_after :: "event list \<Rightarrow> string \<Rightarrow> string list list option \<Rightarrow> event list
    \<Rightarrow> string list list option" where
  "rows_after t f acc [] = acc"
| "rows_after t f acc (Open h n # es) = rows_after t f (if n = f then Some [] else acc) es"
| "rows_after t f acc (Close h # es) = rows_after t f acc es"
| "rows_after t f acc (WriteRow h r # es) =
     rows_after t f (if handle_name t h = Some f then map_option (\<lambda>rows. rows @ [r]) acc else acc) es"

definition file_rows :: "event list \<Rightarrow> string \<Rightarrow> string list list option" where
  "file_rows t f = rows_after t f None t"

definition file_text :: "event list \<Rightarrow> string \<Rightarrow> string option" where
  "file_text t f = map_option (\<lambda>rows. concat (map writerow rows)) (file_rows t f)"



text \<open>The trace of a whole run, whether it ends normally or with an error.\<close>

definition main_trace :: "string list \<Rightarrow> event list" where
  "main_trace lines = trace (fst (main lines))"




text \<open>The key of a column line that has its two parts.\<close>

definition key_of :: "string \<Rightarrow> string" where
  "key_of line =
     (let parts = split_on CHR '' '' (strip line)
      in strip_with (\<lambda>c. c = CHR 0x60) (hd parts) @ key_type (parts ! 1))"

section \<open>Readings of the specification to compare with\<close>

text \<open>\<open>new_key\<close> on each line in order, stopping at the first error: the lines of a block
  taken as column definitions.\<close>

fun collect_keys :: "string list \<Rightarrow> error + string list" where
  "collect_keys [] = Inr []"
| "collect_keys (l # ls) =
     (case new_key l of
        Inl e \<Rightarrow> Inl e
      | Inr k \<Rightarrow> (case collect_keys ls of Inl e \<Rightarrow> Inl e | Inr ks \<Rightarrow> Inr (k # ks)))"

text \<open>The words of claim C5: the tokens of a line are separated by whitespace (runs of
  it, as \<open>line.split()\<close> separates), and the second token decides the type.\<close>

fun ws_split :: "string \<Rightarrow> string \<Rightarrow> string list" where
  "ws_split cur [] = (if cur = [] then [] else [cur])"
| "ws_split cur (c # s) =
     (if isspace c then (if cur = [] then ws_split [] s else cur # ws_split [] s)
      else ws_split (cur @ [c]) s)"

definition claimed_key :: "string \<Rightarrow> string option" where
  "claimed_key line =
     (case ws_split [] line of
        name # ty # others \<Rightarrow> Some (strip_with (\<lambda>c. c = CHR 0x60) name @ key_type ty)
      | _ \<Rightarrow> None)"

text \<open>The words of claim C8: the name comes from the opener line, every following line
  before the first terminator is a column definition, and the terminator is consumed.\<close>

definition claimed_create_keys ::
  "string list \<Rightarrow> error + ((string \<times> string list) \<times> string list)" where
  "claimed_create_keys fileinput =
     (case fileinput of
        [] \<Rightarrow> Inl UnboundLocalError
      | opener # following \<Rightarrow>
          (case collect_keys (takeWhile (\<lambda>l. \<not> is_terminator l) following) of
             Inl e \<Rightarrow> Inl e
           | Inr ks \<Rightarrow> Inr ((table_name_of opener, ks),
                            drop 1 (dropWhile (\<lambda>l. \<not> is_terminator l) following))))"

section \<open>Properties of the value tokenizer and the row assembler\<close>

text \<open>
  Claim C1. For the value list \<open>(1,'a'),(2,'b');\<close> \<open>parse_values\<close> writes exactly two rows,
  first \<open>1, a\<close> and then \<open>2, b\<close>, with the parentheses, the quotes and the final semicolon
  gone and no error; the same holds when the line feed that ends the dump's line follows
  the semicolon.
\<close>

theorem parse_values_two_rows:
  "parse_values ''(1,'a'),(2,'b');'' (Some h) = ([[''1'', ''a''], [''2'', ''b'']], None)
   \<and> parse_values (''(1,'a'),(2,'b');'' @ [CHR 0x0A]) (Some h)
       = ([[''1'', ''a''], [''2'', ''b'']], None)"
  by code_simp

text \<open>The loop body on a field that starts with \<open>(\<close>, the inner loop over a row cut in
  two, and the rows written, which only grow.\<close>

lemma process_column_step:
  assumes "column \<noteq> []" and "hd column = CHR ''(''"
  shows "process_column (latest_row, written) column =
     (if latest_row = [] then Inr ([tl column], written)
      else if last latest_row = [] then Inl IndexError
      else if last (last latest_row) = CHR '')''
      then Inr ([tl column], written @ [butlast latest_row @ [butlast (last latest_row)]])
      else Inr (latest_row @ [column], written))"
  using assms by (auto simp: process_column_def Let_def)

lemma parse_columns_append:
  "parse_columns (xs @ ys) a =
     (case parse_columns xs a of
        (a1, Some e) \<Rightarrow> (a1, Some e)
      | (a1, None) \<Rightarrow> parse_columns ys a1)"
  by (induction xs arbitrary: a) (auto split: sum.splits)

lemma process_column_written:
  "process_column (lr, w) c = Inr (lr', w') \<Longrightarrow> \<exists>ext. w' = w @ ext"
  by (auto simp: process_column_def Let_def split: if_splits)

lemma parse_columns_written:
  "parse_columns cs (lr, w) = ((lr', w'), e) \<Longrightarrow> \<exists>ext. w' = w @ ext"
proof (induction cs arbitrary: lr w)
  case Nil
  then show ?case by simp
next
  case (Cons c cs)
  show ?case
  proof (cases "process_column (lr, w) c")
    case (Inl err)
    with Cons.prems show ?thesis by simp
  next
    case (Inr a)
    obtain lr1 w1 where a: "a = (lr1, w1)" by (cases a)
    obtain x where 1: "w1 = w @ x" using process_column_written Inr a by blast
    obtain y where 2: "w' = w1 @ y" using Cons.IH [of lr1 w1] Cons.prems Inr a by auto
    show ?thesis using 1 2 by simp
  qed
qed

lemma end_of_statement_written:
  "end_of_statement (lr, w) = Inr (lr', w') \<Longrightarrow> \<exists>ext. w' = w @ ext"
  by (auto simp: end_of_statement_def Let_def split: if_splits)

lemma parse_reader_rows_one_written:
  assumes "parse_reader_rows [cs] (lr, w) = ((lr', w'), e)"
  shows "take (length w) w' = w"
proof -
  obtain lr1 w1 e1 where pc: "parse_columns cs (lr, w) = ((lr1, w1), e1)"
    by (metis prod.exhaust)
  obtain x where 1: "w1 = w @ x" using parse_columns_written [OF pc] by blast
  show ?thesis
  proof (cases e1)
    case (Some err)
    with assms pc 1 show ?thesis by auto
  next
    case None
    show ?thesis
    proof (cases "end_of_statement (lr1, w1)")
      case (Inl err)
      with assms pc None 1 show ?thesis by auto
    next
      case (Inr a)
      obtain lr2 w2 where a: "a = (lr2, w2)" by (cases a)
      obtain y where 2: "w2 = w1 @ y" using end_of_statement_written Inr a by blast
      have "w' = w2" using assms pc None Inr a by simp
      then show ?thesis using 1 2 by simp
    qed
  qed
qed

text \<open>A reader given one line yields no row or one.\<close>

lemma csv_reader_one_row:
  "fst (csv_reader [values]) = [] \<or> (\<exists>row. csv_reader [values] = ([row], None))"
  by (auto simp: csv_reader_def parse_reset_def split: sum.splits)

text \<open>
  Claim C2. Let the reader split the value list into the fields \<open>pre\<close>, then a field
  \<open>column\<close> that starts with \<open>(\<close>, then \<open>post\<close>, and let \<open>latest_row\<close> and \<open>written\<close> be the
  row in progress and the rows written when \<open>parse_values\<close> has handled \<open>pre\<close>. A new row
  begins at \<open>column\<close> exactly when \<open>latest_row\<close> is not empty and its last field ends with
  \<open>)\<close>: then that \<open>)\<close> is removed, the completed row is the next row that \<open>parse_values\<close>
  writes to the sink, and the row in progress restarts with \<open>column\<close>. The leading \<open>(\<close> of
  \<open>column\<close> is removed exactly when the row in progress is empty at that point (it was
  empty, or it has just been written); otherwise \<open>column\<close> is appended as it is and nothing
  is written at this field. \<open>parse_values\<close> then goes on with \<open>post\<close> from that state. A last
  field that is the empty string has no last character: the test raises IndexError and
  \<open>parse_values\<close> ends with the rows written so far.
\<close>

theorem parse_values_paren_field:
  assumes rd: "csv_reader [values] = ([pre @ column # post], rerr)"
    and acc: "parse_columns pre ([], []) = ((latest_row, written), None)"
    and col: "column \<noteq> []" "hd column = CHR ''(''"
  shows "parse_columns (pre @ [column]) ([], []) =
     (if latest_row = [] then (([tl column], written), None)
      else if last latest_row = [] then ((latest_row, written), Some IndexError)
      else if last (last latest_row) = CHR '')''
      then (([tl column], written @ [butlast latest_row @ [butlast (last latest_row)]]), None)
      else ((latest_row @ [column], written), None))
   \<and> parse_values values (Some h) =
     (if latest_row \<noteq> [] \<and> last latest_row = [] then (written, Some IndexError)
      else (case parse_reader_rows [post]
                   (if latest_row = [] then ([tl column], written)
                    else if last (last latest_row) = CHR '')''
                    then ([tl column],
                          written @ [butlast latest_row @ [butlast (last latest_row)]])
                    else (latest_row @ [column], written)) of
              ((lr, w), Some e) \<Rightarrow> (w, Some e)
            | ((lr, w), None) \<Rightarrow> (w, rerr)))
   \<and> (if latest_row \<noteq> [] \<and> last latest_row \<noteq> [] \<and> last (last latest_row) = CHR '')''
      then take (Suc (length written)) (fst (parse_values values (Some h)))
             = written @ [butlast latest_row @ [butlast (last latest_row)]]
      else take (length written) (fst (parse_values values (Some h))) = written)"
proof -
  let ?flushed = "butlast latest_row @ [butlast (last latest_row)]"
  let ?a = "if latest_row = [] then ([tl column], written)
            else if last (last latest_row) = CHR '')'' then ([tl column], written @ [?flushed])
            else (latest_row @ [column], written)"
  let ?err = "latest_row \<noteq> [] \<and> last latest_row = []"
  have step: "process_column (latest_row, written) column =
      (if ?err then Inl IndexError else Inr ?a)"
    using process_column_step [OF col, of latest_row written] by simp
  have one: "parse_columns (pre @ [column]) ([], []) =
      (if ?err then ((latest_row, written), Some IndexError) else (?a, None))"
    by (simp add: parse_columns_append acc step)
  have all: "parse_columns (pre @ column # post) ([], []) =
      (if ?err then ((latest_row, written), Some IndexError) else parse_columns post ?a)"
    by (simp add: parse_columns_append acc step)
  have pv: "parse_values values (Some h) =
     (if ?err then (written, Some IndexError)
      else (case parse_reader_rows [post] ?a of
              ((lr, w), Some e) \<Rightarrow> (w, Some e)
            | ((lr, w), None) \<Rightarrow> (w, rerr)))"
    by (simp add: parse_values_def rd all split: prod.splits option.splits sum.splits)
  obtain lr' w' e' where fin: "parse_reader_rows [post] ?a = ((lr', w'), e')"
    by (metis prod.exhaust)
  have fst_pv: "\<not> ?err \<Longrightarrow> fst (parse_values values (Some h)) = w'"
    using pv fin by (cases e') auto
  have c1: ?thesis if "?err"
    using that one pv by simp
  have c2: ?thesis if ne: "\<not> ?err" and nr: "latest_row \<noteq> [] \<and> last (last latest_row) = CHR '')''"
  proof -
    have a: "?a = ([tl column], written @ [?flushed])" using nr by simp
    have "take (length (written @ [?flushed])) w' = written @ [?flushed]"
      using parse_reader_rows_one_written [of post "[tl column]" "written @ [?flushed]" lr' w' e']
            fin a by simp
    then have "take (Suc (length written)) (fst (parse_values values (Some h))) = written @ [?flushed]"
      using fst_pv [OF ne] by simp
    then show ?thesis using ne nr one pv by auto
  qed
  have c3: ?thesis if ne: "\<not> ?err" and nr: "\<not> (latest_row \<noteq> [] \<and> last (last latest_row) = CHR '')'')"
  proof -
    obtain lr0 where a: "?a = (lr0, written)"
      by (cases "latest_row = []") (use nr in auto)
    have "take (length written) w' = written"
      using parse_reader_rows_one_written [of post lr0 written lr' w' e'] fin a by simp
    then have "take (length written) (fst (parse_values values (Some h))) = written"
      using fst_pv [OF ne] by simp
    then show ?thesis using ne nr one pv by auto
  qed
  show ?thesis using c1 c2 c3 by blast
qed

theorem parse_values_paren_field_witness:
  "parse_columns [''(1'', ''a)'', ''(2''] ([], []) = (([''2''], [[''1'', ''a'']]), None)
   \<and> parse_values ''(1,'a'),(2,'b');'' (Some (0::nat)) = ([[''1'', ''a''], [''2'', ''b'']], None)
   \<and> take (Suc 0) (fst (parse_values ''(1,'a'),(2,'b');'' (Some (0::nat)))) = [[''1'', ''a'']]"
proof -
  have rd: "csv_reader [''(1,'a'),(2,'b');''] = ([[''(1'', ''a)''] @ ''(2'' # [''b);'']], None)"
    by code_simp
  have acc: "parse_columns [''(1'', ''a)''] ([], []) = (([''1'', ''a)''], []), None)"
    by code_simp
  have fin: "parse_reader_rows [[''b);'']] ([''2''], [[''1'', ''a'']])
               = (([''2'', ''b''], [[''1'', ''a''], [''2'', ''b'']]), None)"
    by code_simp
  have col: "''(2'' \<noteq> []" "hd ''(2'' = CHR ''(''" by simp_all
  show ?thesis
    using parse_values_paren_field [OF rd acc col, of 0] fin by simp
qed



text \<open>
  Claim C4, at the inputs where the code departs from it. The test for the empty string
  and for \<open>NULL\<close> is made on the field as the reader splits it, before the parentheses
  of the tuple are removed. The first field of a tuple still carries its \<open>(\<close> and the
  last its \<open>)\<close>, so \<open>NULL\<close> there is written as the string \<open>NULL\<close>; an empty string in
  the first place is written as two quote characters and in the last place as the empty
  string. Only fields inside a tuple become the NUL character.
\<close>

theorem sentinel_missed_at_tuple_edges:
  "parse_values ''(NULL,2,NULL);'' (Some h) = ([[''NULL'', ''2'', ''NULL'']], None)
   \<and> parse_values (''('' @ [CHR 0x27, CHR 0x27] @ '',2,'' @ [CHR 0x27, CHR 0x27] @ '');'') (Some h)
       = ([[[CHR 0x27, CHR 0x27], ''2'', []]], None)
   \<and> parse_values (''(1,NULL,2),(3,'' @ [CHR 0x27, CHR 0x27] @ '',4);'') (Some h)
       = ([[''1'', [CHR 0x00], ''2''], [''3'', [CHR 0x00], ''4'']], None)"
  by code_simp

text \<open>
  Claim C9, at the inputs where the code departs from it. The reader takes a quote as
  the start of a quoted field only when it is the first character of the field. The
  first field of every tuple starts with the \<open>(\<close> of the tuple, so its quotes are data:
  \<open>('O\'Brien',2);\<close> gives the field \<open>'O'Brien'\<close> with both quotes kept, and the comma
  inside \<open>('a,b',2);\<close> splits the field in two. In the other places of a tuple the quoted
  field is decoded as the claim says.
\<close>

theorem quote_missed_at_tuple_start:
  "parse_values (''('O'' @ [CHR 0x5C, CHR 0x27] @ ''Brien',2);'') (Some h)
     = ([[[CHR 0x27] @ ''O'Brien'' @ [CHR 0x27], ''2'']], None)
   \<and> parse_values ''('a,b',2);'' (Some h) = ([[[CHR 0x27] @ ''a'', ''b'' @ [CHR 0x27], ''2'']], None)
   \<and> parse_values (''(1,'O'' @ [CHR 0x5C, CHR 0x27] @ ''Brien',2);'') (Some h)
     = ([[''1'', ''O'Brien'', ''2'']], None)
   \<and> parse_values (''(1,'O'' @ [CHR 0x5C, CHR 0x27] @ ''Brien');'') (Some h)
     = ([[''1'', ''O'Brien'']], None)
   \<and> parse_values ''(1,'a,b',2);'' (Some h) = ([[''1'', ''a,b'', ''2'']], None)
   \<and> csv_reader [[CHR 0x27] @ ''O'' @ [CHR 0x5C, CHR 0x27] @ ''Brien'' @ [CHR 0x27]]
     = ([[''O'Brien'']], None)
   \<and> csv_reader [[CHR 0x27] @ ''a'' @ [CHR 0x27, CHR 0x27] @ ''b'' @ [CHR 0x27]]
     = ([[''a'b'' @ [CHR 0x27]]], None)"
  by code_simp

section \<open>Properties of the schema extractor\<close>

lemma startswith_Cons: "startswith s (c # p) = (\<exists>t. s = c # t \<and> startswith t p)"
  by (cases s) (auto simp: startswith_def)

lemma startswith_Nil: "startswith s []"
  by (simp add: startswith_def)

lemma is_terminator_not_create: "is_terminator l \<Longrightarrow> \<not> is_create l"
  by (auto simp: is_terminator_def is_create_def startswith_Cons)

lemma insert_not_create: "is_insert line \<Longrightarrow> \<not> is_create line"
  by (auto simp: is_insert_def is_create_def startswith_Cons)

text \<open>The first matching rule decides; the prefixes exclude each other except \<open>date\<close>
  and \<open>datetime\<close>, where the order of the tests matters.\<close>

lemma key_rules:
  "(startswith p ''int'' \<or> startswith p ''bigint'' \<longrightarrow> key_type p = '':INTEGER'')
 \<and> (startswith p ''timestamp'' \<longrightarrow> key_type p = '':TIMESTAMP'')
 \<and> (startswith p ''datetime'' \<longrightarrow> key_type p = '':DATETIME'')
 \<and> (startswith p ''date'' \<and> \<not> startswith p ''datetime'' \<longrightarrow> key_type p = '':DATE'')
 \<and> (startswith p ''decimal'' \<longrightarrow> key_type p = '':FLOAT64'')
 \<and> (startswith p ''bit(1)'' \<longrightarrow> key_type p = '':BOOL'')
 \<and> (\<not> startswith p ''int'' \<and> \<not> startswith p ''bigint'' \<and> \<not> startswith p ''timestamp''
      \<and> \<not> startswith p ''date'' \<and> \<not> startswith p ''decimal'' \<and> \<not> startswith p ''bit(1)''
      \<longrightarrow> key_type p = '':STRING'')"
  unfolding key_type_def by (auto simp: startswith_Cons startswith_Nil)

lemma new_key_parts:
  "split_on CHR '' '' (strip line) = name # ty # others \<Longrightarrow>
   new_key line = Inr (strip_with (\<lambda>c. c = CHR 0x60) name @ key_type ty)"
  by (simp add: new_key_def Let_def)

lemma new_key_short:
  "length (split_on CHR '' '' (strip line)) < 2 \<Longrightarrow> new_key line = Inl IndexError"
  by (simp add: new_key_def Let_def)

text \<open>The loop from inside a block, up to a terminator and up to the end of the input.\<close>

lemma loop_to_terminator:
  assumes "\<forall>l\<in>set mid. \<not> is_terminator l" and "is_terminator t"
  shows "create_keys_loop True (Some n) ks (mid @ t # rest) =
    (case collect_keys (filter (\<lambda>l. \<not> is_create l) mid) of
       Inl e \<Rightarrow> Inl e
     | Inr ks' \<Rightarrow> Inr ((last (n # map table_name_of (filter is_create mid)), ks @ ks'), rest))"
  using assms
proof (induction mid arbitrary: n ks)
  case Nil
  then show ?case by (simp add: is_terminator_not_create return_keys_def)
next
  case (Cons l mid)
  then show ?case by (auto split: sum.splits)
qed

lemma loop_to_end:
  assumes "\<forall>l\<in>set mid. \<not> is_terminator l"
  shows "create_keys_loop True (Some n) ks mid =
    (case collect_keys (filter (\<lambda>l. \<not> is_create l) mid) of
       Inl e \<Rightarrow> Inl e
     | Inr ks' \<Rightarrow> Inr ((last (n # map table_name_of (filter is_create mid)), ks @ ks'), []))"
  using assms
proof (induction mid arbitrary: n ks)
  case Nil
  then show ?case by (simp add: return_keys_def)
next
  case (Cons l mid)
  then show ?case by (auto split: sum.splits)
qed

lemma str_find_char: "c \<notin> set pre \<Longrightarrow> str_find (pre @ c # rest) [c] = Some (length pre)"
  by (induction pre) (auto simp: startswith_def)

lemma partition_str_char:
  "c \<notin> set pre \<Longrightarrow> partition_str (pre @ c # rest) [c] = (pre, [c], rest)"
  by (simp add: partition_str_def str_find_char)

lemma table_name_between_backticks:
  "CHR 0x60 \<notin> set pre \<Longrightarrow> CHR 0x60 \<notin> set name \<Longrightarrow>
   table_name_of (pre @ [CHR 0x60] @ name @ [CHR 0x60] @ post) = name"
  using partition_str_char [of "CHR 0x60" pre "name @ [CHR 0x60] @ post"]
        partition_str_char [of "CHR 0x60" name post]
  by (simp add: table_name_of_def)

lemma collect_keys_ok:
  "\<forall>l\<in>set ls. 2 \<le> length (split_on CHR '' '' (strip l)) \<Longrightarrow>
   \<exists>ks. collect_keys ls = Inr ks \<and> length ks = length ls"
proof (induction ls)
  case Nil
  then show ?case by simp
next
  case (Cons l ls)
  then obtain ks where "collect_keys ls = Inr ks" "length ks = length ls" by auto
  moreover have "\<exists>k. new_key l = Inr k"
    using Cons.prems by (auto simp: new_key_def Let_def)
  ultimately show ?case by auto
qed

text \<open>
  Claim C5, as the code has it. The parts of a column line are those of
  \<open>line.strip().split(' ')\<close>: the stripped line cut at every single space, so two spaces
  in a row enclose an empty part and a tab separates nothing. When there are at least two
  parts the key is the first part without its backticks followed by the type that the
  second part selects by prefix, the first matching rule deciding: \<open>int\<close> or \<open>bigint\<close>
  gives INTEGER, \<open>timestamp\<close> TIMESTAMP, \<open>datetime\<close> DATETIME, \<open>date\<close> (not \<open>datetime\<close>) DATE,
  \<open>decimal\<close> FLOAT64, \<open>bit(1)\<close> BOOL, anything else STRING. For the columns
  \<open>id int, name varchar(50), created_at timestamp\<close> the keys are \<open>id:INTEGER\<close>,
  \<open>name:STRING\<close>, \<open>created_at:TIMESTAMP\<close> and the header record written to the file is
  \<open>id:INTEGER,name:STRING,created_at:TIMESTAMP\<close> followed by the writer's line terminator.
\<close>

theorem key_type_by_prefix:
  "(split_on CHR '' '' (strip line) = name # ty # others \<longrightarrow>
      new_key line = Inr (strip_with (\<lambda>c. c = CHR 0x60) name @ key_type ty))
   \<and> (startswith p ''int'' \<or> startswith p ''bigint'' \<longrightarrow> key_type p = '':INTEGER'')
   \<and> (startswith p ''timestamp'' \<longrightarrow> key_type p = '':TIMESTAMP'')
   \<and> (startswith p ''datetime'' \<longrightarrow> key_type p = '':DATETIME'')
   \<and> (startswith p ''date'' \<and> \<not> startswith p ''datetime'' \<longrightarrow> key_type p = '':DATE'')
   \<and> (startswith p ''decimal'' \<longrightarrow> key_type p = '':FLOAT64'')
   \<and> (startswith p ''bit(1)'' \<longrightarrow> key_type p = '':BOOL'')
   \<and> (\<not> startswith p ''int'' \<and> \<not> startswith p ''bigint'' \<and> \<not> startswith p ''timestamp''
        \<and> \<not> startswith p ''date'' \<and> \<not> startswith p ''decimal'' \<and> \<not> startswith p ''bit(1)''
        \<longrightarrow> key_type p = '':STRING'')
   \<and> get_create_keys
         [''CREATE TABLE `t` ('' @ [CHR 0x0A], ''  `id` int,'' @ [CHR 0x0A],
          ''  `name` varchar(50),'' @ [CHR 0x0A], ''  `created_at` timestamp'' @ [CHR 0x0A],
          '') ENGINE=InnoDB;'' @ [CHR 0x0A]]
       = Inr ((''t'', [''id:INTEGER'', ''name:STRING'', ''created_at:TIMESTAMP'']), [])
   \<and> file_text (main_trace
         [''CREATE TABLE `t` ('' @ [CHR 0x0A], ''  `id` int,'' @ [CHR 0x0A],
          ''  `name` varchar(50),'' @ [CHR 0x0A], ''  `created_at` timestamp'' @ [CHR 0x0A],
          '') ENGINE=InnoDB;'' @ [CHR 0x0A]]) ''t.csv''
       = Some (''id:INTEGER,name:STRING,created_at:TIMESTAMP'' @ [CHR 0x0D, CHR 0x0A])"
proof -
  have ex1: "get_create_keys
         [''CREATE TABLE `t` ('' @ [CHR 0x0A], ''  `id` int,'' @ [CHR 0x0A],
          ''  `name` varchar(50),'' @ [CHR 0x0A], ''  `created_at` timestamp'' @ [CHR 0x0A],
          '') ENGINE=InnoDB;'' @ [CHR 0x0A]]
       = Inr ((''t'', [''id:INTEGER'', ''name:STRING'', ''created_at:TIMESTAMP'']), [])"
    by code_simp
  have ex2: "file_text (main_trace
         [''CREATE TABLE `t` ('' @ [CHR 0x0A], ''  `id` int,'' @ [CHR 0x0A],
          ''  `name` varchar(50),'' @ [CHR 0x0A], ''  `created_at` timestamp'' @ [CHR 0x0A],
          '') ENGINE=InnoDB;'' @ [CHR 0x0A]]) ''t.csv''
       = Some (''id:INTEGER,name:STRING,created_at:TIMESTAMP'' @ [CHR 0x0D, CHR 0x0A])"
    by code_simp
  show ?thesis
    using new_key_parts [of line name ty others] key_rules [of p] ex1 ex2 by blast
qed

theorem key_type_by_prefix_witness:
  "new_key (''  `created_at` datetime(6) NOT NULL,'' @ [CHR 0x0A]) = Inr ''created_at:DATETIME''
   \<and> key_type ''date'' = '':DATE''
   \<and> key_type ''bigint(20)'' = '':INTEGER''
   \<and> key_type ''varchar(50),'' = '':STRING''"
proof -
  have parts: "split_on CHR '' '' (strip (''  `created_at` datetime(6) NOT NULL,'' @ [CHR 0x0A]))
                 = ''`created_at`'' # ''datetime(6)'' # [''NOT'', ''NULL,'']"
    by code_simp
  have dt: "startswith ''datetime(6)'' ''datetime''"
    and d: "startswith ''date'' ''date'' \<and> \<not> startswith ''date'' ''datetime''"
    and b: "startswith ''bigint(20)'' ''int'' \<or> startswith ''bigint(20)'' ''bigint''"
    and v: "\<not> startswith ''varchar(50),'' ''int'' \<and> \<not> startswith ''varchar(50),'' ''bigint''
        \<and> \<not> startswith ''varchar(50),'' ''timestamp'' \<and> \<not> startswith ''varchar(50),'' ''date''
        \<and> \<not> startswith ''varchar(50),'' ''decimal'' \<and> \<not> startswith ''varchar(50),'' ''bit(1)''"
    by code_simp+
  have name: "strip_with (\<lambda>c. c = CHR 0x60) ''`created_at`'' = ''created_at''"
    by (simp add: strip_with_def)
  show ?thesis
    using key_type_by_prefix [of "''  `created_at` datetime(6) NOT NULL,'' @ [CHR 0x0A]"
            "''`created_at`''" "''datetime(6)''" "[''NOT'', ''NULL,'']" "''datetime(6)''"]
          key_type_by_prefix [of "[]" "[]" "[]" "[]" "''date''"]
          key_type_by_prefix [of "[]" "[]" "[]" "[]" "''bigint(20)''"]
          key_type_by_prefix [of "[]" "[]" "[]" "[]" "''varchar(50),''"]
          parts dt d b v name
    by simp
qed

text \<open>Claim C5 as it is worded fails where the separator is not one space: with two
  spaces between the name and the type the code's second part is empty and the type is
  STRING, while the second whitespace-separated token is \<open>int(11)\<close>.\<close>

theorem key_type_second_token_counterexample:
  "new_key (''  `id`  int(11) NOT NULL,'' @ [CHR 0x0A]) = Inr ''id:STRING''
   \<and> claimed_key (''  `id`  int(11) NOT NULL,'' @ [CHR 0x0A]) = Some ''id:INTEGER''"
  by code_simp

text \<open>Column lines that all have their two parts give their keys; one that has not
  raises IndexError.\<close>

lemma new_key_ok:
  "2 \<le> length (split_on CHR '' '' (strip l)) \<Longrightarrow> new_key l = Inr (key_of l)"
  by (simp add: new_key_def key_of_def Let_def)

lemma collect_keys_map:
  "\<forall>l\<in>set ls. 2 \<le> length (split_on CHR '' '' (strip l)) \<Longrightarrow>
   collect_keys ls = Inr (map key_of ls)"
  by (induction ls) (simp_all add: new_key_ok)

lemma collect_keys_short:
  "\<exists>l\<in>set ls. length (split_on CHR '' '' (strip l)) < 2 \<Longrightarrow>
   collect_keys ls = Inl IndexError"
proof (induction ls)
  case Nil
  then show ?case by simp
next
  case (Cons l ls)
  show ?case
  proof (cases "length (split_on CHR '' '' (strip l)) < 2")
    case True
    then show ?thesis by (simp add: new_key_short)
  next
    case False
    then have "new_key l = Inr (key_of l)" by (simp add: new_key_ok)
    moreover have "collect_keys ls = Inl IndexError" using Cons False by auto
    ultimately show ?thesis by simp
  qed
qed

text \<open>
  Claim C8, as the code has it. The table name is the text between the first and the
  second backtick of the opener line. When no line between the opener and the first
  terminator line starts with \<open>CREATE TABLE\<close> and each of these lines splits into at least
  two parts, they are taken as column definitions in order, one key for each; the
  terminator line is consumed and gives no key: the lines left in the iterator are those
  after it. When one of these lines has fewer than two parts, \<open>get_create_keys\<close> raises
  IndexError at it and the terminator is not reached.
\<close>

theorem schema_block:
  "(is_create opener \<and> is_terminator t
      \<and> (\<forall>l\<in>set cols. \<not> is_terminator l \<and> \<not> is_create l
                        \<and> 2 \<le> length (split_on CHR '' '' (strip l)))
      \<longrightarrow> get_create_keys (opener # cols @ t # rest)
            = Inr ((table_name_of opener, map key_of cols), rest))
   \<and> (is_create opener \<and> is_terminator t
      \<and> (\<forall>l\<in>set cols. \<not> is_terminator l \<and> \<not> is_create l)
      \<and> (\<exists>l\<in>set cols. length (split_on CHR '' '' (strip l)) < 2)
      \<longrightarrow> get_create_keys (opener # cols @ t # rest) = Inl IndexError)
   \<and> (CHR 0x60 \<notin> set pre \<and> CHR 0x60 \<notin> set name
      \<longrightarrow> table_name_of (pre @ [CHR 0x60] @ name @ [CHR 0x60] @ post) = name)
   \<and> (is_terminator t) =
       (startswith t ''  PRIMARY KEY'' \<or> startswith t ''  KEY'' \<or> startswith t '') ENGINE''
        \<or> startswith t ''  UNIQUE KEY'')
   \<and> (split_on CHR '' '' (strip line) = name' # ty # others
      \<longrightarrow> key_of line = strip_with (\<lambda>c. c = CHR 0x60) name' @ key_type ty)"
proof -
  have gen: "get_create_keys (opener # cols @ t # rest) =
            (case collect_keys cols of
               Inl e \<Rightarrow> Inl e
             | Inr ks \<Rightarrow> Inr ((table_name_of opener, ks), rest))"
    if "is_create opener" and c: "\<forall>l\<in>set cols. \<not> is_terminator l \<and> \<not> is_create l"
      and "is_terminator t"
  proof -
    have f: "filter (\<lambda>l. \<not> is_create l) cols = cols" "filter is_create cols = []"
      using c by (auto simp: filter_empty_conv)
    show ?thesis
      using that loop_to_terminator [of cols t "table_name_of opener" "[]" rest]
      by (auto simp: get_create_keys_def f split: sum.splits)
  qed
  have a: "get_create_keys (opener # cols @ t # rest)
            = Inr ((table_name_of opener, map key_of cols), rest)"
    if "is_create opener" "is_terminator t"
       "\<forall>l\<in>set cols. \<not> is_terminator l \<and> \<not> is_create l
                        \<and> 2 \<le> length (split_on CHR '' '' (strip l))"
  proof -
    have "collect_keys cols = Inr (map key_of cols)"
      using that(3) collect_keys_map [of cols] by blast
    moreover have "\<forall>l\<in>set cols. \<not> is_terminator l \<and> \<not> is_create l" using that(3) by blast
    ultimately show ?thesis using gen that(1,2) by simp
  qed
  have b: "get_create_keys (opener # cols @ t # rest) = Inl IndexError"
    if "is_create opener" "is_terminator t"
       "\<forall>l\<in>set cols. \<not> is_terminator l \<and> \<not> is_create l"
       "\<exists>l\<in>set cols. length (split_on CHR '' '' (strip l)) < 2"
    using gen [OF that(1) that(3) that(2)] collect_keys_short [OF that(4)] by simp
  have k: "key_of line = strip_with (\<lambda>c. c = CHR 0x60) name' @ key_type ty"
    if "split_on CHR '' '' (strip line) = name' # ty # others"
    using that by (simp add: key_of_def)
  show ?thesis
    using a b k table_name_between_backticks [of pre name post] is_terminator_def [of t]
    by blast
qed

theorem schema_block_witness:
  "get_create_keys [''CREATE TABLE `users` ('', ''  `id` int(11) NOT NULL,'',
                    ''  `name` varchar(50),'', ''  PRIMARY KEY (`id`),'', ''  KEY `n` (`name`)'',
                    '') ENGINE=InnoDB;'']
     = Inr ((''users'', [''id:INTEGER'', ''name:STRING'']),
            [''  KEY `n` (`name`)'', '') ENGINE=InnoDB;''])
   \<and> get_create_keys [''CREATE TABLE `users` ('', ''  `id` int(11) NOT NULL,'', [],
                      ''  PRIMARY KEY (`id`),'', '') ENGINE=InnoDB;''] = Inl IndexError
   \<and> table_name_of (''CREATE TABLE '' @ [CHR 0x60] @ ''users'' @ [CHR 0x60] @ '' ('') = ''users''"
proof -
  have h: "is_create ''CREATE TABLE `users` ('' \<and> is_terminator ''  PRIMARY KEY (`id`),''
      \<and> (\<forall>l\<in>set [''  `id` int(11) NOT NULL,'', ''  `name` varchar(50),''].
            \<not> is_terminator l \<and> \<not> is_create l \<and> 2 \<le> length (split_on CHR '' '' (strip l)))"
    by code_simp
  have h2: "is_create ''CREATE TABLE `users` ('' \<and> is_terminator ''  PRIMARY KEY (`id`),''
      \<and> (\<forall>l\<in>set [''  `id` int(11) NOT NULL,'', []]. \<not> is_terminator l \<and> \<not> is_create l)
      \<and> (\<exists>l\<in>set [''  `id` int(11) NOT NULL,'', []]. length (split_on CHR '' '' (strip l)) < 2)"
    by code_simp
  have k: "map key_of [''  `id` int(11) NOT NULL,'', ''  `name` varchar(50),'']
             = [''id:INTEGER'', ''name:STRING'']"
    by code_simp
  have n: "CHR 0x60 \<notin> set ''CREATE TABLE '' \<and> CHR 0x60 \<notin> set ''users''"
    by simp
  have t: "table_name_of ''CREATE TABLE `users` ('' = ''users''"
    by code_simp
  have 1: "get_create_keys (''CREATE TABLE `users` ('' #
              [''  `id` int(11) NOT NULL,'', ''  `name` varchar(50),''] @
              ''  PRIMARY KEY (`id`),'' # [''  KEY `n` (`name`)'', '') ENGINE=InnoDB;''])
           = Inr ((''users'', [''id:INTEGER'', ''name:STRING'']),
                  [''  KEY `n` (`name`)'', '') ENGINE=InnoDB;''])"
    using schema_block [of "''CREATE TABLE `users` (''" "''  PRIMARY KEY (`id`),''"
            "[''  `id` int(11) NOT NULL,'', ''  `name` varchar(50),'']"
            "[''  KEY `n` (`name`)'', '') ENGINE=InnoDB;'']", THEN conjunct1] h k t
    by simp
  have 2: "get_create_keys (''CREATE TABLE `users` ('' # [''  `id` int(11) NOT NULL,'', []] @
              ''  PRIMARY KEY (`id`),'' # ['') ENGINE=InnoDB;'']) = Inl IndexError"
    using schema_block [of "''CREATE TABLE `users` (''" "''  PRIMARY KEY (`id`),''"
            "[''  `id` int(11) NOT NULL,'', []]" "['') ENGINE=InnoDB;'']",
            THEN conjunct2, THEN conjunct1] h2
    by blast
  have 3: "table_name_of (''CREATE TABLE '' @ [CHR 0x60] @ ''users'' @ [CHR 0x60] @ '' ('') = ''users''"
    using schema_block [of _ _ _ _ "''CREATE TABLE ''" "''users''" "'' (''",
            THEN conjunct2, THEN conjunct2, THEN conjunct1] n
    by blast
  show ?thesis using 1 2 3 by simp
qed

text \<open>Claim C8 as it is worded fails when a line after the opener starts with
  \<open>CREATE TABLE\<close> itself: the code takes it as a new opener, so the name returned is that
  of the second line, which gives no key.\<close>

theorem schema_block_counterexample:
  "get_create_keys [''CREATE TABLE `a` ('', ''CREATE TABLE `b` ('', '') ENGINE'']
     = Inr ((''b'', []), [])
   \<and> claimed_create_keys [''CREATE TABLE `a` ('', ''CREATE TABLE `b` ('', '') ENGINE'']
     = Inr ((''a'', [''CREATE:STRING'']), [])"
  by code_simp

text \<open>
  Claim C10, as the code has it. When no line after the opener starts with a terminator,
  the loop runs to the end of the input and \<open>get_create_keys\<close> returns: the name is that
  of the last line starting with \<open>CREATE TABLE\<close>, the keys are those of all other lines in
  order, and no line is left. The end of the input raises nothing; the only error is
  that of a column line itself. When every line after the opener splits into at least two
  parts (and none starts with \<open>CREATE TABLE\<close>) the result is the opener's name with one
  key for every line.
\<close>

theorem premature_end:
  "(is_create opener \<and> (\<forall>l\<in>set following. \<not> is_terminator l)
      \<longrightarrow> get_create_keys (opener # following) =
            (case collect_keys (filter (\<lambda>l. \<not> is_create l) following) of
               Inl e \<Rightarrow> Inl e
             | Inr ks \<Rightarrow>
                 Inr ((last (map table_name_of (filter is_create (opener # following))), ks), [])))
   \<and> (is_create opener \<and> (\<forall>l\<in>set following. \<not> is_terminator l \<and> \<not> is_create l
             \<and> 2 \<le> length (split_on CHR '' '' (strip l)))
      \<longrightarrow> (\<exists>ks. get_create_keys (opener # following) = Inr ((table_name_of opener, ks), [])
                \<and> collect_keys following = Inr ks \<and> length ks = length following))"
proof -
  have gen: "get_create_keys (opener # following) =
            (case collect_keys (filter (\<lambda>l. \<not> is_create l) following) of
               Inl e \<Rightarrow> Inl e
             | Inr ks \<Rightarrow>
                 Inr ((last (map table_name_of (filter is_create (opener # following))), ks), []))"
    if "is_create opener" and "\<forall>l\<in>set following. \<not> is_terminator l"
    using that loop_to_end [of following "table_name_of opener" "[]"]
    by (auto simp: get_create_keys_def split: sum.splits)
  have ok: "\<exists>ks. get_create_keys (opener # following) = Inr ((table_name_of opener, ks), [])
                \<and> collect_keys following = Inr ks \<and> length ks = length following"
    if o: "is_create opener" and c: "\<forall>l\<in>set following. \<not> is_terminator l \<and> \<not> is_create l
             \<and> 2 \<le> length (split_on CHR '' '' (strip l))"
  proof -
    have f: "filter (\<lambda>l. \<not> is_create l) following = following" "filter is_create following = []"
      using c by (auto simp: filter_empty_conv)
    obtain ks where ks: "collect_keys following = Inr ks" "length ks = length following"
      using collect_keys_ok [of following] c by auto
    have "\<forall>l\<in>set following. \<not> is_terminator l" using c by blast
    from gen [OF o this] show ?thesis
      using o ks by (auto simp: f split: sum.splits)
  qed
  show ?thesis using gen ok by blast
qed

theorem premature_end_witness:
  "get_create_keys [''CREATE TABLE `t` ('' @ [CHR 0x0A], ''  `id` int(11) NOT NULL,'' @ [CHR 0x0A],
                    ''  `d` date DEFAULT NULL'' @ [CHR 0x0A]]
     = Inr ((''t'', [''id:INTEGER'', ''d:DATE'']), [])"
proof -
  have h: "is_create (''CREATE TABLE `t` ('' @ [CHR 0x0A])
      \<and> (\<forall>l\<in>set [''  `id` int(11) NOT NULL,'' @ [CHR 0x0A], ''  `d` date DEFAULT NULL'' @ [CHR 0x0A]].
            \<not> is_terminator l \<and> \<not> is_create l \<and> 2 \<le> length (split_on CHR '' '' (strip l)))"
    by code_simp
  have k: "collect_keys [''  `id` int(11) NOT NULL,'' @ [CHR 0x0A], ''  `d` date DEFAULT NULL'' @ [CHR 0x0A]]
             = Inr [''id:INTEGER'', ''d:DATE'']"
    by code_simp
  have t: "table_name_of (''CREATE TABLE `t` ('' @ [CHR 0x0A]) = ''t''"
    by code_simp
  show ?thesis
    using premature_end [of "''CREATE TABLE `t` ('' @ [CHR 0x0A]"
            "[''  `id` int(11) NOT NULL,'' @ [CHR 0x0A], ''  `d` date DEFAULT NULL'' @ [CHR 0x0A]]",
            THEN conjunct2] h k t
    by auto
qed

text \<open>Claim C10 as it is worded fails on a block that is closed by a line the code does
  not know as a terminator: no terminator is found before the input ends, and the closing
  line, which has one part only, raises IndexError.\<close>

theorem premature_end_counterexample:
  "get_create_keys [''CREATE TABLE `t` ('' @ [CHR 0x0A], ''  `id` int(11) NOT NULL'' @ [CHR 0x0A],
                    '');'' @ [CHR 0x0A]] = Inl IndexError
   \<and> list_all (\<lambda>l. \<not> is_terminator l)
        [''CREATE TABLE `t` ('' @ [CHR 0x0A], ''  `id` int(11) NOT NULL'' @ [CHR 0x0A],
         '');'' @ [CHR 0x0A]]"
  by code_simp

section \<open>Properties of the driver\<close>

text \<open>At an opener line the loop goes on with the lines that the schema extractor left.\<close>

lemma block_loop:
  assumes "is_create opener" and "get_create_keys (opener # inp) = Inr ((n, keys), inp')"
  shows "main_loop st (opener # inp) =
           main_loop (write_keys keys (open_output (n @ ''.csv'') (close_output st))) inp'"
proof -
  have "\<not> is_insert opener" using assms(1) insert_not_create by blast
  then have i: "insert_step s opener = (s, None)" for s
    by (simp add: insert_step_def)
  show ?thesis using assms by (simp add: create_step_def i)
qed

text \<open>
  Claim C6, as the code has it. When the driver's loop takes a line that starts with
  \<open>INSERT INTO\<close>, in any state: if the text after the first \<open>` VALUES \<close> is empty or does
  not start with \<open>(\<close>, the loop ends there with AssertionError, the state is unchanged
  (nothing is written) and the lines that follow are not read; otherwise the check
  returns \<open>True\<close> and \<open>parse_values\<close> runs on the text with the current sink, its rows are
  written and the loop goes on unless \<open>parse_values\<close> raised. A run whose first line fails
  the check ends with AssertionError and an empty trace. The lines that the schema
  extractor consumes inside a table definition are not lines the loop takes: after an
  opener line the loop goes on with the lines the extractor left.
\<close>

theorem insert_sanity_check:
  "(is_insert line \<longrightarrow>
      main_loop st (line # inp) =
        (if get_insert_values line = [] \<or> hd (get_insert_values line) \<noteq> CHR ''(''
         then (st, Some AssertionError)
         else (case output st of
                 None \<Rightarrow> (st, Some TypeError)
               | Some h \<Rightarrow>
                   (case parse_values (get_insert_values line) (Some h) of
                      (rows, Some e) \<Rightarrow> (st\<lparr>trace := trace st @ map (WriteRow h) rows\<rparr>, Some e)
                    | (rows, None) \<Rightarrow>
                        main_loop (st\<lparr>trace := trace st @ map (WriteRow h) rows\<rparr>) inp))))
   \<and> (is_insert line \<and> (get_insert_values line = [] \<or> hd (get_insert_values line) \<noteq> CHR ''('')
        \<longrightarrow> main (line # inp) = (initial, Some AssertionError))
   \<and> (values_sanity_check values = Inr True) = (values \<noteq> [] \<and> hd values = CHR ''('')
   \<and> (values_sanity_check values = Inl AssertionError) = (values = [] \<or> hd values \<noteq> CHR ''('')
   \<and> (is_create opener \<and> get_create_keys (opener # inp) = Inr ((n, keys), inp')
        \<longrightarrow> main_loop st (opener # inp) =
              main_loop (write_keys keys (open_output (n @ ''.csv'') (close_output st))) inp')"
proof -
  have loop: "main_loop st (line # inp) =
        (if get_insert_values line = [] \<or> hd (get_insert_values line) \<noteq> CHR ''(''
         then (st, Some AssertionError)
         else (case output st of
                 None \<Rightarrow> (st, Some TypeError)
               | Some h \<Rightarrow>
                   (case parse_values (get_insert_values line) (Some h) of
                      (rows, Some e) \<Rightarrow> (st\<lparr>trace := trace st @ map (WriteRow h) rows\<rparr>, Some e)
                    | (rows, None) \<Rightarrow>
                        main_loop (st\<lparr>trace := trace st @ map (WriteRow h) rows\<rparr>) inp)))"
    if "is_insert line" for st
  proof -
    have c: "create_step st line inp = Inr (st, inp)"
      using insert_not_create [OF that] by (simp add: create_step_def)
    show ?thesis
      using that
      by (auto simp: c insert_step_def values_sanity_check_def parse_values_def Let_def
               split: option.splits prod.splits sum.splits)
  qed
  have run: "main (line # inp) = (initial, Some AssertionError)"
    if "is_insert line" and "get_insert_values line = [] \<or> hd (get_insert_values line) \<noteq> CHR ''(''"
    using loop [OF that(1), of initial] that(2) by (auto simp: main_def)
  have chk: "(values_sanity_check values = Inr True) = (values \<noteq> [] \<and> hd values = CHR ''('')"
    "(values_sanity_check values = Inl AssertionError) = (values = [] \<or> hd values \<noteq> CHR ''('')"
    by (simp_all add: values_sanity_check_def)
  show ?thesis using loop run chk block_loop [of opener inp n keys inp' st] by blast
qed

theorem insert_sanity_check_witness:
  "main [''INSERT INTO `t` VALUES 1,2;'' @ [CHR 0x0A], ''INSERT INTO `t` VALUES (3,4);'' @ [CHR 0x0A]]
     = (initial, Some AssertionError)
   \<and> main_loop \<lparr>output = Some 0, next_handle = 1, trace = [Open 0 ''t.csv'']\<rparr>
        [''INSERT INTO `t` VALUES (3,4);'' @ [CHR 0x0A]]
     = (\<lparr>output = Some 0, next_handle = 1, trace = [Open 0 ''t.csv'', WriteRow 0 [''3'', ''4'']]\<rparr>,
        None)"
proof -
  have bad: "is_insert (''INSERT INTO `t` VALUES 1,2;'' @ [CHR 0x0A])
      \<and> (get_insert_values (''INSERT INTO `t` VALUES 1,2;'' @ [CHR 0x0A]) = []
         \<or> hd (get_insert_values (''INSERT INTO `t` VALUES 1,2;'' @ [CHR 0x0A])) \<noteq> CHR ''('')"
    by code_simp
  have good: "is_insert (''INSERT INTO `t` VALUES (3,4);'' @ [CHR 0x0A])"
    by code_simp
  have v: "get_insert_values (''INSERT INTO `t` VALUES (3,4);'' @ [CHR 0x0A]) = ''(3,4);'' @ [CHR 0x0A]"
    by code_simp
  have p: "parse_values (''(3,4);'' @ [CHR 0x0A]) (Some (0::nat)) = ([[''3'', ''4'']], None)"
    by code_simp
  show ?thesis
    using insert_sanity_check [of "''INSERT INTO `t` VALUES 1,2;'' @ [CHR 0x0A]" _
            "[''INSERT INTO `t` VALUES (3,4);'' @ [CHR 0x0A]]", THEN conjunct2, THEN conjunct1]
          insert_sanity_check [of "''INSERT INTO `t` VALUES (3,4);'' @ [CHR 0x0A]"
            "\<lparr>output = Some 0, next_handle = 1, trace = [Open 0 ''t.csv'']\<rparr>" "[]",
            THEN conjunct1]
          bad good v p
    by simp
qed

text \<open>Claim C6 as it is worded fails for an insert line inside a table definition: the
  schema extractor reads it as a column definition, its value list is never checked, and
  the run ends normally with the key \<open>INSERT:STRING\<close> in the header.\<close>

theorem insert_sanity_check_counterexample:
  "main [''CREATE TABLE `t` ('' @ [CHR 0x0A], ''  `id` int(11),'' @ [CHR 0x0A],
         ''INSERT INTO `t` VALUES 1,2;'' @ [CHR 0x0A], '') ENGINE=InnoDB;'' @ [CHR 0x0A],
         ''INSERT INTO `t` VALUES (3);'' @ [CHR 0x0A]]
     = (\<lparr>output = Some 0, next_handle = 1,
          trace = [Open 0 ''t.csv'', WriteRow 0 [''id:INTEGER'', ''INSERT:STRING''],
                   WriteRow 0 [''3''], Close 0]\<rparr>, None)
   \<and> is_insert (''INSERT INTO `t` VALUES 1,2;'' @ [CHR 0x0A])
   \<and> values_sanity_check (get_insert_values (''INSERT INTO `t` VALUES 1,2;'' @ [CHR 0x0A]))
       = Inl AssertionError"
  by code_simp
























end
